theory Spec2Isabelle
  imports Complex_Main
begin

section \<open>The datasets of \<^verbatim>\<open>App.tsx\<close>\<close>

text \<open>
  The module reads two tables, the airports and the flights between them, and derives from
  them the nodes and the links of a force simulation. The rows are modelled as records with
  the field names of the interfaces \<^verbatim>\<open>Airport\<close>, \<^verbatim>\<open>AirportWithTotalFlights\<close> and
  \<^verbatim>\<open>Flight\<close>. A row of the airports file holds its coordinates as text, a converted
  airport as a number, so the record is polymorphic in the type of the coordinates.

  Numbers: a flight count is a whole number and is modelled as \<open>int\<close>. JavaScript adds
  whole numbers without rounding as long as no value exceeds \<open>2 ^ 53\<close> in magnitude; the
  predicate \<open>exact_counts\<close> below says so of a list of flights, and the statements that
  depend on the value of a total assume it. A coordinate is modelled as \<open>real\<close>.
\<close>

record 'n Airport =
  iata :: string
  name :: string
  city :: string
  state :: string
  country :: string
  latitude :: 'n
  longitude :: 'n

text \<open>
  What a property of \<^verbatim>\<open>flightMap\<close>, and so the field \<^verbatim>\<open>flights\<close>, can hold: a number,
  \<^verbatim>\<open>NaN\<close>, or a value that is no number, namely a function or an object inherited from
  \<^verbatim>\<open>Object.prototype\<close> or the string that \<^verbatim>\<open>+=\<close> makes of it.
\<close>

datatype js_total = Num int | NaN | NonNumber

record 'n AirportWithTotalFlights = "'n Airport" +
  flights :: js_total

record Flight =
  origin :: string
  destination :: string
  count :: int

record Link =
  source :: string
  target :: string
  count :: int

subsection \<open>The filter of line 16\<close>

text \<open>
  \<^verbatim>\<open>.filter((a: any) => (a: any) => !!flights.find(...))\<close>: the callback given to
  \<^verbatim>\<open>filter\<close> takes an airport and returns an arrow function, which is the one that would
  look for a flight. \<^verbatim>\<open>filter\<close> keeps an element when the callback's result is truthy. The
  results that occur here are booleans and functions.
\<close>

datatype 'a js_value = JsBoolean bool | JsFunction "'a \<Rightarrow> bool"

fun truthy :: "'a js_value \<Rightarrow> bool" where
  "truthy (JsBoolean b) = b"
| "truthy (JsFunction f) = True"

definition has_flight :: "Flight list \<Rightarrow> ('n, 'm) Airport_scheme \<Rightarrow> bool" where
  \<comment> \<open>\<^verbatim>\<open>!!flights.find((f) => f.origin === a.iata || f.destination === a.iata)\<close>\<close>
  "has_flight fs a = (find (\<lambda>f. origin f = iata a \<or> destination f = iata a) fs \<noteq> None)"

definition airports_filter :: "Flight list \<Rightarrow> 'n Airport \<Rightarrow> ('n Airport) js_value" where
  \<comment> \<open>the outer arrow function ignores its own argument: the inner \<^verbatim>\<open>a\<close> shadows it\<close>
  "airports_filter fs a = JsFunction (\<lambda>a'. has_flight fs a')"

definition airports :: "(string \<Rightarrow> real) \<Rightarrow> Flight list \<Rightarrow> string Airport list \<Rightarrow> real Airport list" where
  \<comment> \<open>lines 14 to 22; \<open>Number\<close> is JavaScript's conversion of text to a number\<close>
  "airports Number fs raw_airports =
     map (\<lambda>a. \<lparr>iata = iata a, name = name a, city = city a, state = state a,
                country = country a, latitude = Number (latitude a),
                longitude = Number (longitude a)\<rparr>)
         (filter (\<lambda>a. truthy (airports_filter fs a)) raw_airports)"

subsection \<open>The flight totals, lines 24 to 33\<close>

text \<open>
  \<^verbatim>\<open>flightMap\<close> is an object literal used as a dictionary from airport codes to totals,
  filled by one pass over the flights. An object literal inherits the properties of
  \<^verbatim>\<open>Object.prototype\<close>: for one of their names, \<^verbatim>\<open>flightMap[k]\<close> is the inherited function
  or object although no flight has stored anything under \<open>k\<close>.
\<close>

definition Object_prototype :: "string list" where
  \<comment> \<open>the names of the properties that every object literal inherits\<close>
  "Object_prototype =
     [''constructor'', ''__defineGetter__'', ''__defineSetter__'', ''hasOwnProperty'',
      ''__lookupGetter__'', ''__lookupSetter__'', ''isPrototypeOf'', ''propertyIsEnumerable'',
      ''toString'', ''valueOf'', ''__proto__'', ''toLocaleString'']"

definition get_property :: "(string \<rightharpoonup> js_total) \<Rightarrow> string \<Rightarrow> js_total option" where
  \<comment> \<open>\<^verbatim>\<open>m[k]\<close>: the object's own property, else the inherited one, else \<^verbatim>\<open>undefined\<close>\<close>
  "get_property m k =
     (case m k of
        Some v \<Rightarrow> Some v
      | None \<Rightarrow> (if k \<in> set Object_prototype then Some NonNumber else None))"

definition nullish_assign :: "(string \<rightharpoonup> js_total) \<Rightarrow> string \<Rightarrow> int \<Rightarrow> (string \<rightharpoonup> js_total)" where
  \<comment> \<open>\<^verbatim>\<open>m[k] ??= v\<close>: assigns only when \<^verbatim>\<open>m[k]\<close> is \<^verbatim>\<open>undefined\<close>\<close>
  "nullish_assign m k v = (case get_property m k of None \<Rightarrow> m(k \<mapsto> Num v) | Some _ \<Rightarrow> m)"

definition js_plus :: "js_total option \<Rightarrow> int \<Rightarrow> js_total" where
  \<comment> \<open>\<^verbatim>\<open>v + c\<close> for a number \<open>c\<close>: \<^verbatim>\<open>undefined\<close> and \<^verbatim>\<open>NaN\<close> give \<^verbatim>\<open>NaN\<close>; a function, an
      object or a string is turned into text and \<open>c\<close> appended; two numbers are added, which
      is the sum of the integers as long as \<open>exact_counts\<close> holds\<close>
  "js_plus v c =
     (case v of
        None \<Rightarrow> NaN
      | Some (Num a) \<Rightarrow> Num (a + c)
      | Some NaN \<Rightarrow> NaN
      | Some NonNumber \<Rightarrow> NonNumber)"

definition add_assign :: "(string \<rightharpoonup> js_total) \<Rightarrow> string \<Rightarrow> int \<Rightarrow> (string \<rightharpoonup> js_total)" where
  \<comment> \<open>\<^verbatim>\<open>m[k] += c\<close>, that is \<^verbatim>\<open>m[k] = m[k] + c\<close>; under \<^verbatim>\<open>__proto__\<close> the assignment of
      a string is ignored and the inherited object stays, which reads the same here\<close>
  "add_assign m k c = m(k \<mapsto> js_plus (get_property m k) c)"

definition flightMap_step :: "(string \<rightharpoonup> js_total) \<Rightarrow> Flight \<Rightarrow> (string \<rightharpoonup> js_total)" where
  "flightMap_step m flight =
     (let m1 = nullish_assign m (origin flight) 0;
          m2 = add_assign m1 (origin flight) (Flight.count flight);
          m3 = nullish_assign m2 (destination flight) 0
      in add_assign m3 (destination flight) (Flight.count flight))"

definition flightMap :: "Flight list \<Rightarrow> (string \<rightharpoonup> js_total)" where
  \<comment> \<open>the own properties of \<^verbatim>\<open>flightMap\<close> after the loop of lines 25 to 30\<close>
  "flightMap fs = foldl flightMap_step Map.empty fs"

definition or_zero :: "js_total option \<Rightarrow> js_total" where
  \<comment> \<open>\<^verbatim>\<open>v || 0\<close>: \<^verbatim>\<open>undefined\<close>, \<^verbatim>\<open>0\<close> and \<^verbatim>\<open>NaN\<close> are falsy; a function, an object and a
      string that is not empty are truthy\<close>
  "or_zero v =
     (case v of
        None \<Rightarrow> Num 0
      | Some (Num n) \<Rightarrow> (if n = 0 then Num 0 else Num n)
      | Some NaN \<Rightarrow> Num 0
      | Some NonNumber \<Rightarrow> NonNumber)"

definition greater_zero :: "js_total \<Rightarrow> bool" where
  \<comment> \<open>\<^verbatim>\<open>v > 0\<close>: a value that is no number is converted to \<^verbatim>\<open>NaN\<close>, and \<^verbatim>\<open>NaN > 0\<close> is
      false\<close>
  "greater_zero v = (case v of Num n \<Rightarrow> 0 < n | NaN \<Rightarrow> False | NonNumber \<Rightarrow> False)"

definition airportsWithTotal :: "'n Airport list \<Rightarrow> Flight list \<Rightarrow> 'n AirportWithTotalFlights list" where
  "airportsWithTotal as fs =
     filter (\<lambda>a. greater_zero (flights a))
       (map (\<lambda>a. Airport.extend a
              (AirportWithTotalFlights.fields (or_zero (get_property (flightMap fs) (iata a))))) as)"

subsection \<open>The states and the links\<close>

definition Set_add :: "'a list \<Rightarrow> 'a \<Rightarrow> 'a list" where
  \<comment> \<open>a \<^verbatim>\<open>Set\<close> keeps its values in the order of their first insertion\<close>
  "Set_add vs v = (if v \<in> set vs then vs else vs @ [v])"

definition new_Set :: "'a list \<Rightarrow> 'a list" where
  "new_Set vs = foldl Set_add [] vs"

definition states :: "('n, 'm) Airport_scheme list \<Rightarrow> string list" where
  \<comment> \<open>line 36: \<^verbatim>\<open>[...new Set(airports.map((a) => a.state))]\<close>\<close>
  "states as = new_Set (map state as)"

definition links :: "Flight list \<Rightarrow> Link list" where
  \<comment> \<open>lines 64 to 68; \<^verbatim>\<open>Number\<close> of a number is that number\<close>
  "links fs = map (\<lambda>flight. \<lparr>source = origin flight, target = destination flight,
                             count = Flight.count flight\<rparr>) fs"

text \<open>
  The aggregate flow of an airport, in the words of the specification: the counts of the
  flights that list it as origin plus the counts of the flights that list it as destination.
\<close>

definition aggregate_flow :: "Flight list \<Rightarrow> string \<Rightarrow> int" where
  "aggregate_flow fs k =
     sum_list (map Flight.count (filter (\<lambda>f. origin f = k) fs)) +
     sum_list (map Flight.count (filter (\<lambda>f. destination f = k) fs))"


definition mentions :: "Flight \<Rightarrow> string \<Rightarrow> bool" where
  \<comment> \<open>the flight starts or ends at the airport with code \<open>k\<close>\<close>
  "mentions f k = (origin f = k \<or> destination f = k)"

section \<open>The force simulation\<close>

subsection \<open>Canvas and scales, lines 58 to 88\<close>

definition width :: real where
  "width = 1280"

definition height :: real where
  "height = 720"

text \<open>
  Modelled from the spec: \<^verbatim>\<open>d3.scaleLinear\<close> belongs to the d3 library, which is not under
  \<^verbatim>\<open>src/\<close>. Section 6 of the specification calls the two scales functions that map
  geographic coordinates to canvas coordinates; a linear scale sends the two ends of its
  domain to the two ends of its range and interpolates linearly between them.
\<close>

definition scaleLinear :: "real \<times> real \<Rightarrow> real \<times> real \<Rightarrow> real \<Rightarrow> real" where
  \<comment> \<open>Modelled from the spec: \<^verbatim>\<open>d3.scaleLinear().domain(d).range(r)\<close>, section 6\<close>
  "scaleLinear d r v = fst r + (v - fst d) / (snd d - fst d) * (snd r - fst r)"

definition scaleLatitude :: "real \<Rightarrow> real" where
  "scaleLatitude = scaleLinear (24.2, 49.8) (height, 0)"

definition scaleLongitude :: "real \<Rightarrow> real" where
  "scaleLongitude = scaleLinear (-66.5, -125.5) (width, 0)"

subsection \<open>Nodes and forces, lines 90 to 100\<close>

text \<open>
  The simulation works on the objects of \<^verbatim>\<open>airportsWithTotal\<close> themselves and adds to each
  its index, its position, its velocity and its pin. A pin that is \<^verbatim>\<open>null\<close> or was never
  set is \<open>None\<close>.
\<close>

record node = "real AirportWithTotalFlights" +
  index :: nat
  x :: real
  y :: real
  vx :: real
  vy :: real
  fx :: "real option"
  fy :: "real option"

text \<open>The force objects that the module builds, with the arguments it gives them.\<close>

datatype force =
    d3_forceManyBody real
  | d3_forceLink "Link list" "node \<Rightarrow> string" real
  | d3_forceCenter real real
  | d3_forceX "node \<Rightarrow> real"
  | d3_forceY "node \<Rightarrow> real"

definition forceNode :: force where
  "forceNode = d3_forceManyBody (-50)"

definition forceLink :: "Link list \<Rightarrow> force" where
  \<comment> \<open>\<^verbatim>\<open>d3.forceLink(links).id((d) => d.iata).distance(50)\<close>\<close>
  "forceLink ls = d3_forceLink ls (\<lambda>d. iata d) 50"

definition forceCenter :: force where
  "forceCenter = d3_forceCenter (width / 2) (height / 2)"

definition forceX :: force where
  "forceX = d3_forceX (\<lambda>d. scaleLongitude (longitude d))"

definition forceY :: force where
  "forceY = d3_forceY (\<lambda>d. scaleLatitude (latitude d))"

subsection \<open>The simulation object\<close>

text \<open>
  Modelled from the spec: \<^verbatim>\<open>d3.forceSimulation\<close>, its methods \<^verbatim>\<open>force\<close>,
  \<^verbatim>\<open>alphaTarget\<close> and \<^verbatim>\<open>restart\<close>, the resolution of the links and the tick belong to the
  d3 library, which is not under \<^verbatim>\<open>src/\<close>. Section 3 of the specification gives the state
  of a simulation (alpha, alpha target, alpha decay rate, velocity decay), section 9 the
  forces attached and detached by a string key, sections 4.1 and 7 the error of an edge
  whose node is unknown, section 4.4 the tick.

  What the specification leaves open is a parameter of the model: the initial placement of
  the nodes, the two decay rates, the velocity changes of the many-body, link and centering
  forces, and the strength of the positional force.
\<close>

record resolved_link =
  source_index :: nat
  target_index :: nat
  weight :: int

record simulation =
  nodes :: "node list"
  edges :: "resolved_link list"
  forces :: "string \<rightharpoonup> force"
  alpha :: real
  alphaTarget :: real
  alphaDecay :: real
  velocityDecay :: real
  running :: bool

record d3 =
  initial_position :: "nat \<Rightarrow> real \<times> real"
  default_alphaDecay :: real
  default_velocityDecay :: real
  other_delta :: "force \<Rightarrow> real \<Rightarrow> node list \<Rightarrow> node \<Rightarrow> real \<times> real"
  positional_strength :: real

datatype error = MissingNodeError string

definition initialize :: "d3 \<Rightarrow> real AirportWithTotalFlights list \<Rightarrow> node list" where
  \<comment> \<open>Modelled from the spec: the particle store of \<^verbatim>\<open>d3.forceSimulation\<close>, section 4.1:
      every node gets an initial position and zero velocity\<close>
  "initialize lib as =
     map (\<lambda>(i, a). AirportWithTotalFlights.extend a
            (node.fields i (fst (initial_position lib i)) (snd (initial_position lib i))
               0 0 None None))
         (zip [0..<length as] as)"

definition forceSimulation :: "d3 \<Rightarrow> real AirportWithTotalFlights list \<Rightarrow> simulation" where
  \<comment> \<open>Modelled from the spec: \<^verbatim>\<open>d3.forceSimulation(nodes)\<close>, section 3: no force attached,
      alpha at 1, the alpha target at its resting value 0, the loop running\<close>
  "forceSimulation lib as =
     \<lparr>nodes = initialize lib as, edges = [], forces = Map.empty, alpha = 1, alphaTarget = 0,
      alphaDecay = default_alphaDecay lib, velocityDecay = default_velocityDecay lib,
      running = True\<rparr>"

definition set_force :: "string \<Rightarrow> force option \<Rightarrow> simulation \<Rightarrow> simulation" where
  \<comment> \<open>Modelled from the spec: \<^verbatim>\<open>simulation.force(name, f)\<close>, section 9: forces are attached
      and detached by a string key; \<^verbatim>\<open>null\<close> detaches the force of that name\<close>
  "set_force k f s = s\<lparr>forces := (forces s)(k := f)\<rparr>"

definition set_alphaTarget :: "real \<Rightarrow> simulation \<Rightarrow> simulation" where
  \<comment> \<open>Modelled from the spec: \<^verbatim>\<open>simulation.alphaTarget(v)\<close>, section 3\<close>
  "set_alphaTarget v s = s\<lparr>alphaTarget := v\<rparr>"

definition restart :: "simulation \<Rightarrow> simulation" where
  \<comment> \<open>Modelled from the spec: \<^verbatim>\<open>simulation.restart()\<close>, section 4.5: the loop is restarted;
      the re-heating is the raised alpha target, toward which the next ticks move alpha\<close>
  "restart s = s\<lparr>running := True\<rparr>"

definition find_node :: "node list \<Rightarrow> string \<Rightarrow> error + nat" where
  \<comment> \<open>Modelled from the spec: the lookup inside \<^verbatim>\<open>d3.forceLink\<close>, sections 4.1 and 7: the
      place in the store of the node with this identifier, or the error\<close>
  "find_node ns k =
     (case filter (\<lambda>i. iata (ns ! i) = k) [0..<length ns] of
        [] \<Rightarrow> Inl (MissingNodeError k)
      | i # _ \<Rightarrow> Inr i)"

fun resolve_links :: "node list \<Rightarrow> Link list \<Rightarrow> error + resolved_link list" where
  \<comment> \<open>Modelled from the spec: the binding of the links inside \<^verbatim>\<open>d3.forceLink\<close>, section 3:
      every edge is resolved once, in order; the first unknown node is fatal\<close>
  "resolve_links ns [] = Inr []"
| "resolve_links ns (l # ls) =
     (case find_node ns (source l) of
        Inl e \<Rightarrow> Inl e
      | Inr i \<Rightarrow>
          (case find_node ns (target l) of
             Inl e \<Rightarrow> Inl e
           | Inr j \<Rightarrow>
               (case resolve_links ns ls of
                  Inl e \<Rightarrow> Inl e
                | Inr rs \<Rightarrow>
                    Inr (\<lparr>source_index = i, target_index = j, weight = Link.count l\<rparr> # rs))))"

definition simulation_of :: "d3 \<Rightarrow> real Airport list \<Rightarrow> Flight list \<Rightarrow> error + simulation" where
  \<comment> \<open>lines 161 to 168; attaching the link force resolves the links against the nodes\<close>
  "simulation_of lib as fs =
     (let s0 = forceSimulation lib (airportsWithTotal as fs)
      in case resolve_links (nodes s0) (links fs) of
           Inl e \<Rightarrow> Inl e
         | Inr rs \<Rightarrow>
             Inr (set_force ''y'' None
                   (set_force ''x'' None
                     (set_force ''center'' (Some forceCenter)
                       (set_force ''charge'' (Some forceNode)
                         (set_force ''link'' (Some (forceLink (links fs)))
                           (s0\<lparr>edges := rs\<rparr>)))))))"

subsection \<open>The tick\<close>

definition force_order :: "string list" where
  \<comment> \<open>Modelled from the spec: the order of the forces in a tick of d3, section 4.4:
      many-body, link, centering, positional\<close>
  "force_order = [''charge'', ''link'', ''center'', ''x'', ''y'']"

definition active_forces :: "simulation \<Rightarrow> force list" where
  \<comment> \<open>Modelled from the spec: the attached forces that a tick of d3 invokes, section 4.4\<close>
  "active_forces s = List.map_filter (forces s) force_order"

definition force_delta :: "d3 \<Rightarrow> force \<Rightarrow> real \<Rightarrow> node list \<Rightarrow> node \<Rightarrow> real \<times> real" where
  \<comment> \<open>Modelled from the spec: the force modules of d3, section 4.3: the velocity change that
      a force gives to a node; the positional force nudges it a fraction of the distance
      toward its anchor\<close>
  "force_delta lib f a ns n =
     (case f of
        d3_forceX anchor \<Rightarrow> ((anchor n - node.x n) * positional_strength lib * a, 0)
      | d3_forceY anchor \<Rightarrow> (0, (anchor n - node.y n) * positional_strength lib * a)
      | _ \<Rightarrow> other_delta lib f a ns n)"

definition apply_force :: "d3 \<Rightarrow> real \<Rightarrow> node list \<Rightarrow> force \<Rightarrow> node list" where
  \<comment> \<open>Modelled from the spec: a force of d3 adds its velocity changes in place, section 4.3\<close>
  "apply_force lib a ns f =
     map (\<lambda>n. n\<lparr>vx := vx n + fst (force_delta lib f a ns n),
                vy := vy n + snd (force_delta lib f a ns n)\<rparr>) ns"

definition integrate :: "real \<Rightarrow> node \<Rightarrow> node" where
  \<comment> \<open>Modelled from the spec: the integration in a tick of d3, section 4.4: friction, then
      the step; a pinned coordinate is forced to the pin and its velocity zeroed\<close>
  "integrate decay n =
     n\<lparr>x := (case fx n of None \<Rightarrow> node.x n + vx n * decay | Some p \<Rightarrow> p),
       vx := (case fx n of None \<Rightarrow> vx n * decay | Some p \<Rightarrow> 0),
       y := (case fy n of None \<Rightarrow> node.y n + vy n * decay | Some p \<Rightarrow> p),
       vy := (case fy n of None \<Rightarrow> vy n * decay | Some p \<Rightarrow> 0)\<rparr>"

definition tick :: "d3 \<Rightarrow> simulation \<Rightarrow> simulation" where
  \<comment> \<open>Modelled from the spec: the tick of \<^verbatim>\<open>d3.forceSimulation\<close>, section 4.4: alpha moves
      toward its target, the active forces run in order, the nodes are integrated\<close>
  "tick lib s =
     (let a = alpha s + (alphaTarget s - alpha s) * alphaDecay s;
          ns = foldl (apply_force lib a) (nodes s) (active_forces s)
      in s\<lparr>alpha := a, nodes := map (integrate (velocityDecay s)) ns\<rparr>)"

subsection \<open>Dragging, lines 102 to 118\<close>

text \<open>
  A drag event carries the number of other gestures in progress, the dragged node and the
  pointer's position. The dragged node is a node of the simulation, given by its place in
  the store.
\<close>

record event =
  active :: nat
  subject :: nat
  x :: real
  y :: real

definition set_pin :: "nat \<Rightarrow> real option \<Rightarrow> real option \<Rightarrow> simulation \<Rightarrow> simulation" where
  \<comment> \<open>\<^verbatim>\<open>subject.fx = a; subject.fy = b\<close>\<close>
  "set_pin i a b s = s\<lparr>nodes := (nodes s)[i := (nodes s ! i)\<lparr>fx := a, fy := b\<rparr>]\<rparr>"

definition dragstarted :: "event \<Rightarrow> simulation \<Rightarrow> simulation" where
  "dragstarted e s =
     (let s1 = (if active e = 0 then restart (set_alphaTarget 0.3 s) else s)
      in set_pin (subject e) (Some (node.x (nodes s1 ! subject e)))
           (Some (node.y (nodes s1 ! subject e))) s1)"

definition dragged :: "event \<Rightarrow> simulation \<Rightarrow> simulation" where
  "dragged e s = set_pin (subject e) (Some (event.x e)) (Some (event.y e)) s"

definition dragended :: "event \<Rightarrow> simulation \<Rightarrow> simulation" where
  "dragended e s =
     (let s1 = (if active e = 0 then set_alphaTarget 0.7 s else s)
      in set_pin (subject e) None None s1)"

subsection \<open>The component, lines 170 to 195\<close>

definition effect :: "Link list \<Rightarrow> bool \<Rightarrow> simulation \<Rightarrow> simulation" where
  \<comment> \<open>the body of \<^verbatim>\<open>createEffect\<close>, lines 173 to 181\<close>
  "effect ls toggleMap s =
     restart (set_alphaTarget 1
       (set_force ''y'' (if toggleMap then Some forceY else None)
         (set_force ''x'' (if toggleMap then Some forceX else None)
           (set_force ''center'' (if toggleMap then None else Some forceCenter)
             (set_force ''charge'' (if toggleMap then None else Some forceNode)
               (set_force ''link'' (if toggleMap then None else Some (forceLink ls)) s))))))"

record app =
  toggleMap :: bool
  simulation :: simulation

definition App :: "Link list \<Rightarrow> simulation \<Rightarrow> app" where
  \<comment> \<open>\<^verbatim>\<open>createSignal(false)\<close>; the effect runs once when the component is set up\<close>
  "App ls s = \<lparr>toggleMap = False, simulation = effect ls False s\<rparr>"

datatype action = Toggle | DragStart event | Drag event | DragEnd event | Tick

fun step :: "d3 \<Rightarrow> Link list \<Rightarrow> app \<Rightarrow> action \<Rightarrow> app" where
  "step lib ls a Toggle =
     \<lparr>toggleMap = \<not> toggleMap a, simulation = effect ls (\<not> toggleMap a) (simulation a)\<rparr>"
| "step lib ls a (DragStart e) = a\<lparr>simulation := dragstarted e (simulation a)\<rparr>"
| "step lib ls a (Drag e) = a\<lparr>simulation := dragged e (simulation a)\<rparr>"
| "step lib ls a (DragEnd e) = a\<lparr>simulation := dragended e (simulation a)\<rparr>"
| "step lib ls a Tick = a\<lparr>simulation := tick lib (simulation a)\<rparr>"

definition run :: "d3 \<Rightarrow> Link list \<Rightarrow> app \<Rightarrow> action list \<Rightarrow> app" where
  "run lib ls a acts = foldl (step lib ls) a acts"


section \<open>Auxiliary notions\<close>

text \<open>
  The value under a key after flights with the total \<open>n\<close> have been added to it: the first
  of them finds \<^verbatim>\<open>undefined\<close> replaced by 0.
\<close>

definition total_after :: "js_total option \<Rightarrow> int \<Rightarrow> js_total" where
  "total_after v n = (case v of None \<Rightarrow> Num n | Some w \<Rightarrow> js_plus (Some w) n)"

text \<open>What no force changes in a node: its position, its pin and its geographic anchor.\<close>

definition frame :: "node \<Rightarrow> real \<times> real \<times> real option \<times> real option \<times> real \<times> real" where
  "frame n = (node.x n, node.y n, fx n, fy n, latitude n, longitude n)"

text \<open>
  The invariant of the running component: the alpha target is one of the three values that
  the handlers assign, the decay rate is \<open>d\<close> and alpha is at least \<open>m\<close>.
\<close>

definition hot :: "real \<Rightarrow> real \<Rightarrow> app \<Rightarrow> bool" where
  "hot d m a = (alphaTarget (simulation a) \<in> {1, 3 / 10, 7 / 10}
     \<and> alphaDecay (simulation a) = d \<and> m \<le> alpha (simulation a))"

section \<open>A scenario\<close>

text \<open>
  The two airports and the one route of the scenario of the specification, with a third
  airport that no flight mentions, a flight to an airport that is not in the table, an
  airport named after an inherited property with a flight from it, and the drag of the first
  node to the pixel (100, 100). The library's parameters are the decay
  rates of that scenario, a placement of the nodes along a line, and forces that push every
  node to the right by alpha.
\<close>

definition JFK :: "real Airport" where
  "JFK = \<lparr>iata = ''JFK'', name = ''John F Kennedy Intl'', city = ''New York'', state = ''NY'',
          country = ''USA'', latitude = 40.6, longitude = -73.8\<rparr>"

definition LAX :: "real Airport" where
  "LAX = \<lparr>iata = ''LAX'', name = ''Los Angeles Intl'', city = ''Los Angeles'', state = ''CA'',
          country = ''USA'', latitude = 33.9, longitude = -118.4\<rparr>"

definition ANC :: "real Airport" where
  "ANC = \<lparr>iata = ''ANC'', name = ''Ted Stevens Anchorage Intl'', city = ''Anchorage'',
          state = ''AK'', country = ''USA'', latitude = 61.2, longitude = -150\<rparr>"

definition scenario_airports :: "real Airport list" where
  "scenario_airports = [JFK, LAX, ANC]"

definition scenario_flight :: Flight where
  "scenario_flight = \<lparr>origin = ''JFK'', destination = ''LAX'', count = 50\<rparr>"

definition scenario_flights :: "Flight list" where
  "scenario_flights = [scenario_flight]"

definition dangling_flight :: Flight where
  "dangling_flight = \<lparr>origin = ''JFK'', destination = ''SFO'', count = 50\<rparr>"

definition CTOR :: "real Airport" where
  \<comment> \<open>an airport whose identifier is the name of an inherited property\<close>
  "CTOR = \<lparr>iata = ''constructor'', name = ''Constructor Field'', city = ''Object'',
           state = ''JS'', country = ''USA'', latitude = 30, longitude = -100\<rparr>"

definition inherited_airports :: "real Airport list" where
  "inherited_airports = [CTOR, LAX]"

definition inherited_flight :: Flight where
  "inherited_flight = \<lparr>origin = ''constructor'', destination = ''LAX'', count = 50\<rparr>"

definition scenario_d3 :: d3 where
  "scenario_d3 = \<lparr>initial_position = (\<lambda>i. (real i, 0)), default_alphaDecay = 0.02,
     default_velocityDecay = 0.4, other_delta = (\<lambda>f a ns n. (a, 0)),
     positional_strength = 0.1\<rparr>"

definition scenario_simulation :: simulation where
  "scenario_simulation =
     set_force ''center'' (Some forceCenter)
       (set_force ''charge'' (Some forceNode)
         (set_force ''link'' (Some (forceLink (links scenario_flights)))
           (forceSimulation scenario_d3 (airportsWithTotal scenario_airports scenario_flights))))"

definition drag_event :: event where
  "drag_event = \<lparr>active = 0, subject = 0, x = 100, y = 100\<rparr>"

section \<open>Properties of the datasets\<close>

lemma get_property_nullish_assign:
  "get_property (nullish_assign m k v) k' =
     (if k' = k \<and> get_property m k = None then Some (Num v) else get_property m k')"
  by (auto simp: nullish_assign_def get_property_def split: option.splits if_splits)

lemma get_property_add_assign:
  "get_property (add_assign m k c) k' =
     (if k' = k then Some (js_plus (get_property m k) c) else get_property m k')"
  by (simp add: add_assign_def get_property_def)

lemma aggregate_flow_Cons:
  "aggregate_flow (f # fs) k = aggregate_flow [f] k + aggregate_flow fs k"
  by (simp add: aggregate_flow_def)

lemma aggregate_flow_unmentioned: "\<not> mentions f k \<Longrightarrow> aggregate_flow [f] k = 0"
  by (simp add: aggregate_flow_def mentions_def)

lemma aggregate_flow_none: "\<not> list_ex (\<lambda>f. mentions f k) fs \<Longrightarrow> aggregate_flow fs k = 0"
  by (induction fs) (simp_all add: aggregate_flow_def mentions_def)

lemma js_plus_Some_plus: "js_plus (Some (js_plus (Some w) a)) b = js_plus (Some w) (a + b)"
  by (cases w) (simp_all add: js_plus_def)

lemma total_after_plus: "total_after (Some (total_after v a)) b = total_after v (a + b)"
  by (cases v) (simp_all add: total_after_def js_plus_def split: js_total.splits)

lemma get_property_flightMap_step:
  "get_property (flightMap_step m f) k =
     (if mentions f k
      then Some (total_after (get_property m k) (aggregate_flow [f] k))
      else get_property m k)"
proof (cases "get_property m k")
  case None
  then show ?thesis
    by (auto simp: flightMap_step_def Let_def get_property_nullish_assign
        get_property_add_assign mentions_def aggregate_flow_def total_after_def js_plus_def)
next
  case (Some w)
  then show ?thesis
    by (cases w)
      (auto simp: flightMap_step_def Let_def get_property_nullish_assign
        get_property_add_assign mentions_def aggregate_flow_def total_after_def js_plus_def)
qed

lemma get_property_foldl_flightMap_step:
  "get_property (foldl flightMap_step m fs) k =
     (if list_ex (\<lambda>f. mentions f k) fs
      then Some (total_after (get_property m k) (aggregate_flow fs k))
      else get_property m k)"
proof (induction fs arbitrary: m)
  case Nil
  show ?case by simp
next
  case (Cons f fs)
  let ?m' = "flightMap_step m f"
  have "get_property (foldl flightMap_step m (f # fs)) k
      = get_property (foldl flightMap_step ?m' fs) k"
    by simp
  also have "\<dots> = (if list_ex (\<lambda>f. mentions f k) fs
                    then Some (total_after (get_property ?m' k) (aggregate_flow fs k))
                    else get_property ?m' k)"
    by (rule Cons.IH)
  also have "\<dots> = (if list_ex (\<lambda>f. mentions f k) (f # fs)
                    then Some (total_after (get_property m k) (aggregate_flow (f # fs) k))
                    else get_property m k)"
    by (cases "mentions f k")
      (simp_all add: get_property_flightMap_step [of m f k] aggregate_flow_Cons [of f fs]
        aggregate_flow_unmentioned aggregate_flow_none total_after_plus)
  finally show ?case .
qed

lemma get_property_flightMap:
  "get_property (flightMap fs) k =
     (if k \<in> set Object_prototype then Some NonNumber
      else if list_ex (\<lambda>f. mentions f k) fs then Some (Num (aggregate_flow fs k))
      else None)"
  by (simp add: flightMap_def get_property_foldl_flightMap_step)
    (simp add: get_property_def total_after_def js_plus_def)

lemma or_zero_flightMap:
  "or_zero (get_property (flightMap fs) k) =
     (if k \<in> set Object_prototype then NonNumber else Num (aggregate_flow fs k))"
  by (simp add: get_property_flightMap or_zero_def aggregate_flow_none)

lemma flights_extend [simp]:
  "flights (Airport.extend a (AirportWithTotalFlights.fields n)) = n"
  by (simp add: Airport.extend_def AirportWithTotalFlights.fields_def)

lemma iata_extend [simp]:
  "iata (Airport.extend a (AirportWithTotalFlights.fields n)) = iata a"
  by (simp add: Airport.extend_def AirportWithTotalFlights.fields_def)

lemma state_extend [simp]:
  "state (Airport.extend a (AirportWithTotalFlights.fields n)) = state a"
  by (simp add: Airport.extend_def AirportWithTotalFlights.fields_def)

lemma truncate_extend [simp]:
  "Airport.truncate (Airport.extend (a :: 'n Airport) (AirportWithTotalFlights.fields n)) = a"
  by (simp add: Airport.extend_def Airport.truncate_def AirportWithTotalFlights.fields_def)

lemma airportsWithTotal_iff:
  "p \<in> set (airportsWithTotal as fs) \<longleftrightarrow>
     (\<exists>a \<in> set as. iata a \<notin> set Object_prototype
        \<and> p = Airport.extend a (AirportWithTotalFlights.fields (Num (aggregate_flow fs (iata a))))
        \<and> 0 < aggregate_flow fs (iata a))"
proof
  assume "p \<in> set (airportsWithTotal as fs)"
  then obtain a where a: "a \<in> set as"
    and p: "p = Airport.extend a
        (AirportWithTotalFlights.fields (or_zero (get_property (flightMap fs) (iata a))))"
    and g: "greater_zero (or_zero (get_property (flightMap fs) (iata a)))"
    by (auto simp: airportsWithTotal_def)
  from g have k: "iata a \<notin> set Object_prototype"
    by (auto simp: or_zero_flightMap greater_zero_def split: if_splits)
  with g have "0 < aggregate_flow fs (iata a)"
    by (simp add: or_zero_flightMap greater_zero_def)
  moreover from p k
  have "p = Airport.extend a (AirportWithTotalFlights.fields (Num (aggregate_flow fs (iata a))))"
    by (simp add: or_zero_flightMap)
  ultimately show "\<exists>a \<in> set as. iata a \<notin> set Object_prototype
        \<and> p = Airport.extend a (AirportWithTotalFlights.fields (Num (aggregate_flow fs (iata a))))
        \<and> 0 < aggregate_flow fs (iata a)"
    using a k by blast
next
  assume "\<exists>a \<in> set as. iata a \<notin> set Object_prototype
        \<and> p = Airport.extend a (AirportWithTotalFlights.fields (Num (aggregate_flow fs (iata a))))
        \<and> 0 < aggregate_flow fs (iata a)"
  then obtain a where a: "a \<in> set as" and k: "iata a \<notin> set Object_prototype"
    and p: "p = Airport.extend a (AirportWithTotalFlights.fields (Num (aggregate_flow fs (iata a))))"
    and pos: "0 < aggregate_flow fs (iata a)"
    by blast
  have "p = Airport.extend a
        (AirportWithTotalFlights.fields (or_zero (get_property (flightMap fs) (iata a))))"
    using p k by (simp add: or_zero_flightMap)
  moreover have "greater_zero (flights p)"
    using p pos by (simp add: greater_zero_def)
  ultimately show "p \<in> set (airportsWithTotal as fs)"
    using a unfolding airportsWithTotal_def by (simp add: image_iff) blast
qed

lemma set_Set_add: "set (Set_add vs v) = insert v (set vs)"
  by (auto simp: Set_add_def)

lemma set_foldl_Set_add: "set (foldl Set_add acc vs) = set acc \<union> set vs"
  by (induction vs arbitrary: acc) (auto simp: set_Set_add)

lemma distinct_foldl_Set_add: "distinct acc \<Longrightarrow> distinct (foldl Set_add acc vs)"
  by (induction vs arbitrary: acc) (auto simp: Set_add_def)

lemma airports_filter_keeps: "filter (\<lambda>a. truthy (airports_filter fs a)) raw = raw"
  by (simp add: airports_filter_def)

lemma set_new_Set: "set (new_Set vs) = set vs"
  by (simp add: new_Set_def set_foldl_Set_add)

lemma iata_airportsWithTotal:
  "iata ` set (airportsWithTotal as fs)
     = {k \<in> iata ` set as. k \<notin> set Object_prototype \<and> 0 < aggregate_flow fs k}"
proof (rule set_eqI)
  fix k
  have "k \<in> iata ` set (airportsWithTotal as fs)
      \<longleftrightarrow> (\<exists>p. p \<in> set (airportsWithTotal as fs) \<and> k = iata p)"
    by auto
  also have "\<dots> \<longleftrightarrow> (\<exists>a \<in> set as. k = iata a \<and> iata a \<notin> set Object_prototype
                         \<and> 0 < aggregate_flow fs (iata a))"
    unfolding airportsWithTotal_iff by (metis iata_extend)
  also have "\<dots> \<longleftrightarrow> k \<in> {k \<in> iata ` set as. k \<notin> set Object_prototype \<and> 0 < aggregate_flow fs k}"
    by auto
  finally show "k \<in> iata ` set (airportsWithTotal as fs)
      \<longleftrightarrow> k \<in> {k \<in> iata ` set as. k \<notin> set Object_prototype \<and> 0 < aggregate_flow fs k}" .
qed

lemma has_flight_iff: "has_flight fs a \<longleftrightarrow> list_ex (\<lambda>f. mentions f (iata a)) fs"
  by (auto simp: has_flight_def mentions_def find_None_iff list_ex_iff)

lemma airportsWithTotal_has_flight:
  "list_all (has_flight fs) (airportsWithTotal as fs)"
proof -
  have "has_flight fs p" if "p \<in> set (airportsWithTotal as fs)" for p
  proof -
    from that obtain a where
      "p = Airport.extend a (AirportWithTotalFlights.fields (Num (aggregate_flow fs (iata a))))"
      "0 < aggregate_flow fs (iata a)"
      unfolding airportsWithTotal_iff by blast
    then have "iata p = iata a" "0 < aggregate_flow fs (iata a)"
      by simp_all
    then have "list_ex (\<lambda>f. mentions f (iata p)) fs"
      using aggregate_flow_none [of "iata p" fs] by auto
    then show ?thesis by (simp add: has_flight_iff)
  qed
  then show ?thesis by (simp add: list_all_iff)
qed

lemma aggregate_flow_nonneg:
  "\<forall>f \<in> set fs. 0 < Flight.count f \<Longrightarrow> 0 \<le> aggregate_flow fs k"
  by (induction fs) (auto simp: aggregate_flow_def)

lemma aggregate_flow_pos:
  "\<forall>f \<in> set fs. 0 < Flight.count f \<Longrightarrow> f \<in> set fs \<Longrightarrow> mentions f k \<Longrightarrow> 0 < aggregate_flow fs k"
proof (induction fs)
  case Nil
  then show ?case by simp
next
  case (Cons g fs)
  have rest: "0 \<le> aggregate_flow fs k"
    using Cons.prems(1) by (simp add: aggregate_flow_nonneg)
  have one: "0 \<le> aggregate_flow [g] k"
    using Cons.prems(1) by (simp add: aggregate_flow_def)
  show ?case
  proof (cases "f = g")
    case True
    then have "0 < aggregate_flow [g] k"
      using Cons.prems(1,3) by (auto simp: aggregate_flow_def mentions_def add_pos_nonneg add_nonneg_pos)
    with rest show ?thesis by (simp add: aggregate_flow_Cons [of g fs])
  next
    case False
    with Cons have "0 < aggregate_flow fs k" by simp
    with one show ?thesis by (simp add: aggregate_flow_Cons [of g fs])
  qed
qed

lemma links_endpoints:
  assumes "\<forall>f \<in> set fs. origin f \<in> iata ` set as \<and> destination f \<in> iata ` set as
             \<and> 0 < Flight.count f"
    and "\<forall>f \<in> set fs. origin f \<notin> set Object_prototype \<and> destination f \<notin> set Object_prototype"
  shows "\<forall>l \<in> set (links fs). source l \<in> iata ` set (airportsWithTotal as fs)
             \<and> target l \<in> iata ` set (airportsWithTotal as fs)"
proof
  fix l assume "l \<in> set (links fs)"
  then obtain f where f: "f \<in> set fs" and l: "source l = origin f" "target l = destination f"
    by (auto simp: links_def)
  have pos: "\<forall>f \<in> set fs. 0 < Flight.count f" using assms(1) by simp
  have "0 < aggregate_flow fs (origin f)" "0 < aggregate_flow fs (destination f)"
    using aggregate_flow_pos [OF pos f] by (simp_all add: mentions_def)
  with assms f l show "source l \<in> iata ` set (airportsWithTotal as fs)
             \<and> target l \<in> iata ` set (airportsWithTotal as fs)"
    by (simp add: iata_airportsWithTotal)
qed

section \<open>Properties of the simulation\<close>

lemmas sim_defs = set_force_def set_alphaTarget_def restart_def set_pin_def

lemma alphaTarget_dragstarted:
  "alphaTarget (dragstarted e s) = (if active e = 0 then 3 / 10 else alphaTarget s)"
  by (simp add: dragstarted_def sim_defs Let_def)

lemma alphaTarget_dragended:
  "alphaTarget (dragended e s) = (if active e = 0 then 7 / 10 else alphaTarget s)"
  by (simp add: dragended_def sim_defs Let_def)

lemma alphaTarget_dragged: "alphaTarget (dragged e s) = alphaTarget s"
  by (simp add: dragged_def sim_defs)

lemma alphaTarget_effect: "alphaTarget (effect ls b s) = 1"
  by (simp add: effect_def sim_defs)

lemma alphaTarget_tick: "alphaTarget (tick lib s) = alphaTarget s"
  by (simp add: tick_def Let_def)

lemma forces_effect:
  "forces (effect ls b s) =
     (forces s)(''link'' := (if b then None else Some (forceLink ls)),
                ''charge'' := (if b then None else Some forceNode),
                ''center'' := (if b then None else Some forceCenter),
                ''x'' := (if b then Some forceX else None),
                ''y'' := (if b then Some forceY else None))"
  by (simp add: effect_def sim_defs)

lemma running_effect: "running (effect ls b s)"
  by (simp add: effect_def sim_defs)

lemma alphaDecay_step: "alphaDecay (simulation (step lib ls a act)) = alphaDecay (simulation a)"
  by (cases act) (simp_all add: effect_def dragstarted_def dragged_def dragended_def tick_def
      sim_defs Let_def)

lemma alphaTarget_step:
  "alphaTarget (simulation (step lib ls a act)) \<in> {1, 3 / 10, 7 / 10, alphaTarget (simulation a)}"
  by (cases act) (simp_all add: alphaTarget_effect alphaTarget_dragstarted alphaTarget_dragged
      alphaTarget_dragended alphaTarget_tick)

lemma alpha_effect: "alpha (effect ls b s) = alpha s"
  by (simp add: effect_def sim_defs)

lemma alpha_dragstarted: "alpha (dragstarted e s) = alpha s"
  by (simp add: dragstarted_def sim_defs Let_def)

lemma alpha_dragged: "alpha (dragged e s) = alpha s"
  by (simp add: dragged_def sim_defs)

lemma alpha_dragended: "alpha (dragended e s) = alpha s"
  by (simp add: dragended_def sim_defs Let_def)

lemma alpha_tick: "alpha (tick lib s) = alpha s + (alphaTarget s - alpha s) * alphaDecay s"
  by (simp add: tick_def Let_def)

lemma alpha_tick_lower:
  fixes m :: real
  assumes "0 \<le> alphaDecay s" "alphaDecay s \<le> 1" "m \<le> alpha s" "m \<le> alphaTarget s"
  shows "m \<le> alpha (tick lib s)"
proof -
  let ?d = "alphaDecay s"
  have "alpha (tick lib s) - m = (1 - ?d) * (alpha s - m) + ?d * (alphaTarget s - m)"
    by (simp add: alpha_tick algebra_simps)
  moreover have "0 \<le> (1 - ?d) * (alpha s - m)" using assms by simp
  moreover have "0 \<le> ?d * (alphaTarget s - m)" using assms by simp
  ultimately show ?thesis by linarith
qed

lemma hot_step:
  assumes "hot d m a" "0 \<le> d" "d \<le> 1" "m \<le> 3 / 10"
  shows "hot d m (step lib ls a act)"
proof -
  have T: "alphaTarget (simulation (step lib ls a act)) \<in> {1, 3 / 10, 7 / 10}"
    using alphaTarget_step [of lib ls a act] assms(1) by (auto simp: hot_def)
  have D: "alphaDecay (simulation (step lib ls a act)) = d"
    using assms(1) by (simp add: alphaDecay_step hot_def)
  have "m \<le> alphaTarget (simulation a)"
    using assms(1,4) by (auto simp: hot_def)
  then have A: "m \<le> alpha (simulation (step lib ls a act))"
    using assms by (cases act)
      (simp_all add: hot_def alpha_effect alpha_dragstarted alpha_dragged alpha_dragended
        alpha_tick_lower)
  from T D A show ?thesis by (simp add: hot_def)
qed

lemma hot_run:
  assumes "hot d m a" "0 \<le> d" "d \<le> 1" "m \<le> 3 / 10"
  shows "hot d m (run lib ls a acts)"
  using assms(1) unfolding run_def
proof (induction acts arbitrary: a)
  case Nil
  then show ?case by simp
next
  case (Cons act acts)
  have "hot d m (step lib ls a act)"
    using Cons.prems assms(2-4) by (rule hot_step)
  then show ?case using Cons.IH by simp
qed

lemma alphaTarget_run_App:
  "alphaTarget (simulation (run lib ls (App ls s0) acts)) \<in> {1, 3 / 10, 7 / 10}"
proof -
  have "alphaTarget (simulation (foldl (step lib ls) a acts)) \<in> {1, 3 / 10, 7 / 10}"
    if "alphaTarget (simulation a) \<in> {1, 3 / 10, 7 / 10}" for a
    using that
  proof (induction acts arbitrary: a)
    case Nil
    then show ?case by simp
  next
    case (Cons act acts)
    have "alphaTarget (simulation (step lib ls a act)) \<in> {1, 3 / 10, 7 / 10}"
      using alphaTarget_step [of lib ls a act] Cons.prems by auto
    then show ?case using Cons.IH by simp
  qed
  then show ?thesis by (simp add: run_def App_def alphaTarget_effect)
qed

lemma length_apply_force [simp]: "length (apply_force lib a ns f) = length ns"
  by (simp add: apply_force_def)

lemma frame_apply_force: "map frame (apply_force lib a ns f) = map frame ns"
  by (simp add: apply_force_def frame_def)

lemma frame_foldl_apply_force: "map frame (foldl (apply_force lib a) ns fs) = map frame ns"
  by (induction fs arbitrary: ns) (simp_all add: frame_apply_force)

lemma length_foldl_apply_force [simp]: "length (foldl (apply_force lib a) ns fs) = length ns"
  using frame_foldl_apply_force [of lib a ns fs] by (metis length_map)

lemma frame_nth_foldl:
  assumes "i < length ns"
  shows "frame (foldl (apply_force lib a) ns fs ! i) = frame (ns ! i)"
proof -
  have "frame (foldl (apply_force lib a) ns fs ! i) = map frame (foldl (apply_force lib a) ns fs) ! i"
    using assms by simp
  also have "\<dots> = map frame ns ! i" by (simp only: frame_foldl_apply_force)
  also have "\<dots> = frame (ns ! i)" using assms by simp
  finally show ?thesis .
qed

lemma length_nodes_tick [simp]: "length (nodes (tick lib s)) = length (nodes s)"
  by (simp add: tick_def Let_def)

lemma nodes_tick_nth:
  assumes "i < length (nodes s)"
  shows "nodes (tick lib s) ! i =
     integrate (velocityDecay s)
       (foldl (apply_force lib (alpha (tick lib s))) (nodes s) (active_forces s) ! i)"
  using assms by (simp add: tick_def Let_def)

lemma tick_pinned:
  assumes "i < length (nodes s)" "fx (nodes s ! i) = Some p" "fy (nodes s ! i) = Some q"
  shows "node.x (nodes (tick lib s) ! i) = p \<and> node.y (nodes (tick lib s) ! i) = q
       \<and> vx (nodes (tick lib s) ! i) = 0 \<and> vy (nodes (tick lib s) ! i) = 0
       \<and> fx (nodes (tick lib s) ! i) = Some p \<and> fy (nodes (tick lib s) ! i) = Some q"
proof -
  let ?n = "foldl (apply_force lib (alpha (tick lib s))) (nodes s) (active_forces s) ! i"
  have "frame ?n = frame (nodes s ! i)"
    using assms(1) by (rule frame_nth_foldl)
  then have "fx ?n = Some p" "fy ?n = Some q"
    using assms(2,3) by (simp_all add: frame_def)
  then show ?thesis
    by (simp add: nodes_tick_nth [OF assms(1)] integrate_def)
qed

lemma ticks_pinned:
  assumes "i < length (nodes s)" "fx (nodes s ! i) = Some p" "fy (nodes s ! i) = Some q"
  shows "length (nodes ((tick lib ^^ k) s)) = length (nodes s)
       \<and> fx (nodes ((tick lib ^^ k) s) ! i) = Some p \<and> fy (nodes ((tick lib ^^ k) s) ! i) = Some q
       \<and> (0 < k \<longrightarrow> node.x (nodes ((tick lib ^^ k) s) ! i) = p
                     \<and> node.y (nodes ((tick lib ^^ k) s) ! i) = q)"
proof (induction k)
  case 0
  show ?case using assms by simp
next
  case (Suc k)
  let ?s = "(tick lib ^^ k) s"
  have "i < length (nodes ?s)" "fx (nodes ?s ! i) = Some p" "fy (nodes ?s ! i) = Some q"
    using Suc assms(1) by simp_all
  from tick_pinned [where lib = lib, OF this] Suc show ?case by simp
qed

lemma tick_unpinned_x:
  assumes "i < length (nodes s)" "fx (nodes s ! i) = None"
  shows "node.x (nodes (tick lib s) ! i) = node.x (nodes s ! i) + vx (nodes (tick lib s) ! i)"
proof -
  let ?n = "foldl (apply_force lib (alpha (tick lib s))) (nodes s) (active_forces s) ! i"
  have "frame ?n = frame (nodes s ! i)"
    using assms(1) by (rule frame_nth_foldl)
  then have "fx ?n = None" "node.x ?n = node.x (nodes s ! i)"
    using assms(2) by (simp_all add: frame_def)
  then show ?thesis
    by (simp add: nodes_tick_nth [OF assms(1)] integrate_def)
qed

lemma nodes_dragged_nth:
  "i < length (nodes s) \<Longrightarrow> nodes (dragged e s) ! i =
     (if i = subject e then (nodes s ! i)\<lparr>fx := Some (event.x e), fy := Some (event.y e)\<rparr>
      else nodes s ! i)"
  by (simp add: dragged_def sim_defs nth_list_update)

lemma length_nodes_dragged [simp]: "length (nodes (dragged e s)) = length (nodes s)"
  by (simp add: dragged_def sim_defs)

lemma nodes_dragstarted_nth:
  "i < length (nodes s) \<Longrightarrow> nodes (dragstarted e s) ! i =
     (if i = subject e
      then (nodes s ! i)\<lparr>fx := Some (node.x (nodes s ! i)), fy := Some (node.y (nodes s ! i))\<rparr>
      else nodes s ! i)"
  by (simp add: dragstarted_def sim_defs Let_def nth_list_update)

lemma length_nodes_dragstarted [simp]: "length (nodes (dragstarted e s)) = length (nodes s)"
  by (simp add: dragstarted_def sim_defs Let_def)

lemma dragstarted_holds:
  assumes "subject e < length (nodes s)"
  shows "node.x (nodes ((tick lib ^^ k) (dragstarted e s)) ! subject e) = node.x (nodes s ! subject e)
       \<and> node.y (nodes ((tick lib ^^ k) (dragstarted e s)) ! subject e) = node.y (nodes s ! subject e)"
proof (cases k)
  case 0
  then show ?thesis using assms by (simp add: nodes_dragstarted_nth)
next
  case (Suc k')
  let ?s = "dragstarted e s"
  have "subject e < length (nodes ?s)"
    "fx (nodes ?s ! subject e) = Some (node.x (nodes s ! subject e))"
    "fy (nodes ?s ! subject e) = Some (node.y (nodes s ! subject e))"
    using assms by (simp_all add: nodes_dragstarted_nth)
  from ticks_pinned [where lib = lib and k = k, OF this] Suc show ?thesis
    by simp
qed

lemma active_forces_map_mode:
  "forces s = [''x'' \<mapsto> forceX, ''y'' \<mapsto> forceY] \<Longrightarrow> active_forces s = [forceX, forceY]"
  by (simp add: active_forces_def force_order_def List.map_filter_def)

lemma force_delta_forceX:
  "force_delta lib forceX a ns n =
     ((scaleLongitude (longitude n) - node.x n) * positional_strength lib * a, 0)"
  by (simp add: force_delta_def forceX_def)

lemma force_delta_forceY:
  "force_delta lib forceY a ns n =
     (0, (scaleLatitude (latitude n) - node.y n) * positional_strength lib * a)"
  by (simp add: force_delta_def forceY_def)

lemma scale_ends:
  "scaleLongitude (-66.5) = width" "scaleLongitude (-125.5) = 0"
  "scaleLatitude 24.2 = height" "scaleLatitude 49.8 = 0"
  by (simp_all add: scaleLongitude_def scaleLatitude_def scaleLinear_def)

lemma scaleLongitude_eq: "scaleLongitude v = (v + 125.5) * 1280 / 59"
  by (simp add: scaleLongitude_def scaleLinear_def width_def field_simps)

lemma scaleLatitude_eq: "scaleLatitude v = (49.8 - v) * 720 / 25.6"
  by (simp add: scaleLatitude_def scaleLinear_def height_def field_simps)

lemma apply_force_nth:
  "i < length ns \<Longrightarrow> apply_force lib a ns f ! i =
     (ns ! i)\<lparr>vx := vx (ns ! i) + fst (force_delta lib f a ns (ns ! i)),
              vy := vy (ns ! i) + snd (force_delta lib f a ns (ns ! i))\<rparr>"
  by (simp add: apply_force_def)

lemma tick_map_mode:
  assumes "forces s = [''x'' \<mapsto> forceX, ''y'' \<mapsto> forceY]" and "j < length (nodes s)"
    and "fx (nodes s ! j) = None" and "fy (nodes s ! j) = None"
  shows "vx (nodes (tick lib s) ! j) =
           (vx (nodes s ! j) + (scaleLongitude (longitude (nodes s ! j)) - node.x (nodes s ! j))
              * positional_strength lib * alpha (tick lib s)) * velocityDecay s"
    and "vy (nodes (tick lib s) ! j) =
           (vy (nodes s ! j) + (scaleLatitude (latitude (nodes s ! j)) - node.y (nodes s ! j))
              * positional_strength lib * alpha (tick lib s)) * velocityDecay s"
    and "node.x (nodes (tick lib s) ! j) = node.x (nodes s ! j) + vx (nodes (tick lib s) ! j)"
    and "node.y (nodes (tick lib s) ! j) = node.y (nodes s ! j) + vy (nodes (tick lib s) ! j)"
  using assms(2-4)
  by (simp_all add: nodes_tick_nth active_forces_map_mode [OF assms(1)] apply_force_nth
      force_delta_forceX force_delta_forceY integrate_def)

lemma find_node_Inl:
  "find_node ns k = (if k \<in> iata ` set ns then find_node ns k else Inl (MissingNodeError k))"
  "k \<in> iata ` set ns \<Longrightarrow> \<exists>i < length ns. find_node ns k = Inr i \<and> iata (ns ! i) = k"
proof -
  let ?is = "filter (\<lambda>i. iata (ns ! i) = k) [0..<length ns]"
  show "find_node ns k = (if k \<in> iata ` set ns then find_node ns k else Inl (MissingNodeError k))"
  proof (cases "k \<in> iata ` set ns")
    case True
    then show ?thesis by simp
  next
    case False
    then have "?is = []"
      by (auto simp: filter_empty_conv)
    then show ?thesis using False by (simp add: find_node_def)
  qed
  show "\<exists>i < length ns. find_node ns k = Inr i \<and> iata (ns ! i) = k" if "k \<in> iata ` set ns"
  proof -
    from that obtain i where "i < length ns" "iata (ns ! i) = k"
      by (auto simp: in_set_conv_nth)
    then have "i \<in> set ?is" by simp
    then obtain j js where js: "?is = j # js" by (cases ?is) auto
    then have "j \<in> set ?is" by simp
    then have "j < length ns" "iata (ns ! j) = k" by simp_all
    with js show ?thesis by (auto simp: find_node_def)
  qed
qed

lemma resolve_links_Inr:
  assumes "\<forall>l \<in> set ls. source l \<in> iata ` set ns \<and> target l \<in> iata ` set ns"
  shows "\<exists>rs. resolve_links ns ls = Inr rs \<and> length rs = length ls"
  using assms
proof (induction ls)
  case Nil
  then show ?case by simp
next
  case (Cons l ls)
  then obtain rs where rs: "resolve_links ns ls = Inr rs" "length rs = length ls" by auto
  from Cons.prems obtain i j where "find_node ns (source l) = Inr i" "find_node ns (target l) = Inr j"
    using find_node_Inl(2) [of "source l" ns] find_node_Inl(2) [of "target l" ns] by auto
  with rs show ?case by simp
qed

lemma resolve_links_Inl:
  assumes "\<exists>l \<in> set ls. source l \<notin> iata ` set ns \<or> target l \<notin> iata ` set ns"
  shows "\<exists>k. resolve_links ns ls = Inl (MissingNodeError k) \<and> k \<notin> iata ` set ns
             \<and> k \<in> source ` set ls \<union> target ` set ls"
  using assms
proof (induction ls)
  case Nil
  then show ?case by simp
next
  case (Cons l ls)
  show ?case
  proof (cases "source l \<in> iata ` set ns")
    case False
    then have "find_node ns (source l) = Inl (MissingNodeError (source l))"
      using find_node_Inl(1) [of ns "source l"] by simp
    with False show ?thesis by simp
  next
    case src: True
    then obtain i where i: "find_node ns (source l) = Inr i"
      using find_node_Inl(2) by blast
    show ?thesis
    proof (cases "target l \<in> iata ` set ns")
      case False
      then have "find_node ns (target l) = Inl (MissingNodeError (target l))"
        using find_node_Inl(1) [of ns "target l"] by simp
      with False i show ?thesis by simp
    next
      case True
      then obtain j where j: "find_node ns (target l) = Inr j"
        using find_node_Inl(2) by blast
      from Cons.prems src True
      have "\<exists>l \<in> set ls. source l \<notin> iata ` set ns \<or> target l \<notin> iata ` set ns" by auto
      from Cons.IH [OF this] obtain k where "resolve_links ns ls = Inl (MissingNodeError k)"
        "k \<notin> iata ` set ns" "k \<in> source ` set ls \<union> target ` set ls" by blast
      with i j show ?thesis by auto
    qed
  qed
qed

lemma resolve_links_length:
  "resolve_links ns ls = Inr rs \<Longrightarrow> length rs = length ls"
  by (induction ls arbitrary: rs) (auto split: sum.splits)

lemma iata_initialize: "map iata (initialize lib as) = map iata as"
proof -
  have "map iata (initialize lib as) = map snd (zip [0..<length as] (map iata as))"
    by (simp add: initialize_def zip_map2 comp_def case_prod_unfold
        AirportWithTotalFlights.extend_def node.fields_def)
  then show ?thesis by simp
qed

lemma nodes_forceSimulation: "iata ` set (nodes (forceSimulation lib as)) = iata ` set as"
  using iata_initialize [of lib as] by (metis forceSimulation_def simulation.select_convs(1) set_map)

section \<open>The scenario, evaluated\<close>

lemmas scenario_defs = scenario_airports_def scenario_flights_def scenario_flight_def
  dangling_flight_def JFK_def LAX_def ANC_def

lemma scenario_not_inherited:
  "''JFK'' \<notin> set Object_prototype" "''LAX'' \<notin> set Object_prototype"
  "''ANC'' \<notin> set Object_prototype" "''SFO'' \<notin> set Object_prototype"
  "''constructor'' \<in> set Object_prototype"
  by (simp_all add: Object_prototype_def)


lemma scenario_flow:
  "aggregate_flow scenario_flights ''JFK'' = 50"
  "aggregate_flow scenario_flights ''LAX'' = 50"
  "aggregate_flow scenario_flights ''ANC'' = 0"
  by (simp_all add: aggregate_flow_def scenario_defs)

lemma scenario_nodes:
  "airportsWithTotal scenario_airports scenario_flights
    = [Airport.extend JFK (AirportWithTotalFlights.fields (Num 50)),
       Airport.extend LAX (AirportWithTotalFlights.fields (Num 50))]"
  by (simp add: airportsWithTotal_def or_zero_flightMap scenario_airports_def scenario_flow
      scenario_not_inherited greater_zero_def
      JFK_def [THEN arg_cong, of iata] LAX_def [THEN arg_cong, of iata] ANC_def [THEN arg_cong, of iata])

lemma inherited_flight_simps:
  "origin inherited_flight = ''constructor''" "destination inherited_flight = ''LAX''"
  "Flight.count inherited_flight = 50"
  by (simp_all add: inherited_flight_def)

lemma inherited_ids: "iata ` set inherited_airports = {''constructor'', ''LAX''}"
  by (simp add: inherited_airports_def CTOR_def LAX_def)

lemma inherited_flow:
  "aggregate_flow [inherited_flight] ''constructor'' = 50"
  "aggregate_flow [inherited_flight] ''LAX'' = 50"
  by (simp_all add: aggregate_flow_def inherited_flight_def)

lemma inherited_nodes:
  "airportsWithTotal inherited_airports [inherited_flight]
    = [Airport.extend LAX (AirportWithTotalFlights.fields (Num 50))]"
  by (simp add: airportsWithTotal_def or_zero_flightMap inherited_airports_def inherited_flow
      scenario_not_inherited greater_zero_def
      CTOR_def [THEN arg_cong, of iata] LAX_def [THEN arg_cong, of iata])

lemma nodes_scenario_simulation:
  "nodes scenario_simulation = initialize scenario_d3 (airportsWithTotal scenario_airports scenario_flights)"
  by (simp add: scenario_simulation_def sim_defs forceSimulation_def)

lemma length_scenario: "length (nodes scenario_simulation) = 2"
  by (simp add: nodes_scenario_simulation initialize_def scenario_nodes)

lemma scenario_unpinned:
  "fx (nodes scenario_simulation ! 0) = None" "fy (nodes scenario_simulation ! 0) = None"
  by (simp_all add: nodes_scenario_simulation initialize_def scenario_nodes
      AirportWithTotalFlights.extend_def node.fields_def upt_conv_Cons)

lemma scenario_state:
  "alpha scenario_simulation = 1" "alphaDecay scenario_simulation = 1 / 50"
  "velocityDecay scenario_simulation = 2 / 5"
  "dom (forces scenario_simulation) = {''link'', ''charge'', ''center''}"
  by (auto simp: scenario_simulation_def sim_defs forceSimulation_def scenario_d3_def)

lemma scenario_active:
  "active_forces (dragged drag_event scenario_simulation)
     = [forceNode, forceLink (links scenario_flights), forceCenter]"
  by (simp add: active_forces_def force_order_def List.map_filter_def dragged_def
      scenario_simulation_def sim_defs forceSimulation_def)

lemma scenario_other:
  "force_delta scenario_d3 forceNode a ns n = (a, 0)"
  "force_delta scenario_d3 (forceLink ls) a ns n = (a, 0)"
  "force_delta scenario_d3 forceCenter a ns n = (a, 0)"
  by (simp_all add: force_delta_def forceNode_def forceLink_def forceCenter_def scenario_d3_def)

lemma drag_event_simps:
  "active drag_event = 0" "subject drag_event = 0" "event.x drag_event = 100"
  "event.y drag_event = 100"
  by (simp_all add: drag_event_def)

lemma scenario_neighbour:
  "fx (nodes (dragged drag_event scenario_simulation) ! Suc 0) = None"
  "vx (nodes (dragged drag_event scenario_simulation) ! Suc 0) = 0"
  "fx (nodes scenario_simulation ! Suc 0) = None"
  by (simp_all add: nodes_dragged_nth length_scenario drag_event_simps nodes_scenario_simulation
      initialize_def scenario_nodes AirportWithTotalFlights.extend_def node.fields_def upt_conv_Cons)

lemma scenario_neighbour_moves:
  "vx (nodes (tick scenario_d3 (dragged drag_event scenario_simulation)) ! Suc 0) = 147 / 125"
proof -
  let ?s = "dragged drag_event scenario_simulation"
  have a: "alpha (tick scenario_d3 ?s) = 49 / 50"
    by (simp add: alpha_tick alpha_dragged alphaTarget_dragged scenario_state
        scenario_simulation_def sim_defs forceSimulation_def dragged_def scenario_d3_def)
  have vd: "velocityDecay ?s = 2 / 5"
    by (simp add: dragged_def sim_defs scenario_state)
  have l: "Suc 0 < length (nodes ?s)" by (simp add: length_scenario)
  show ?thesis
    by (simp add: nodes_tick_nth [OF l] a vd scenario_active apply_force_nth length_scenario scenario_other
        integrate_def scenario_neighbour)
qed

section \<open>The construction and the names of the forces\<close>

lemma dom_forces_simulation_of:
  assumes "simulation_of lib as fs = Inr s"
  shows "dom (forces s) = {''link'', ''charge'', ''center''}"
proof -
  let ?s0 = "forceSimulation lib (airportsWithTotal as fs)"
  obtain rs where rs: "resolve_links (nodes ?s0) (links fs) = Inr rs"
    using assms by (cases "resolve_links (nodes ?s0) (links fs)") (simp_all add: simulation_of_def Let_def)
  have "s = set_force ''y'' None (set_force ''x'' None (set_force ''center'' (Some forceCenter)
           (set_force ''charge'' (Some forceNode)
             (set_force ''link'' (Some (forceLink (links fs))) (?s0\<lparr>edges := rs\<rparr>)))))"
    using assms rs by (simp add: simulation_of_def Let_def)
  then have "forces s = (Map.empty(''link'' \<mapsto> forceLink (links fs), ''charge'' \<mapsto> forceNode,
      ''center'' \<mapsto> forceCenter))(''x'' := None, ''y'' := None)"
    by (simp add: sim_defs forceSimulation_def)
  then show ?thesis by (simp add: insert_commute)
qed

lemma simulation_of_Inr:
  assumes "\<forall>f \<in> set fs. origin f \<in> iata ` set as \<and> destination f \<in> iata ` set as
             \<and> 0 < Flight.count f"
    and "\<forall>f \<in> set fs. origin f \<notin> set Object_prototype \<and> destination f \<notin> set Object_prototype"
  shows "\<exists>s. simulation_of lib as fs = Inr s \<and> length (edges s) = length (links fs)"
proof -
  let ?ns = "nodes (forceSimulation lib (airportsWithTotal as fs))"
  have ids: "iata ` set ?ns = iata ` set (airportsWithTotal as fs)"
    by (rule nodes_forceSimulation)
  have "\<forall>l \<in> set (links fs). source l \<in> iata ` set ?ns \<and> target l \<in> iata ` set ?ns"
    unfolding ids using assms by (rule links_endpoints)
  from resolve_links_Inr [OF this] obtain rs where
    "resolve_links ?ns (links fs) = Inr rs" "length rs = length (links fs)" by blast
  then show ?thesis by (simp add: simulation_of_def Let_def sim_defs)
qed

lemma dom_forces_effect:
  assumes "dom (forces s) \<subseteq> {''link'', ''charge'', ''center'', ''x'', ''y''}"
  shows "dom (forces (effect ls b s)) \<subseteq> {''link'', ''charge'', ''center'', ''x'', ''y''}"
proof (rule subsetI)
  fix k
  assume "k \<in> dom (forces (effect ls b s))"
  then have nz: "forces (effect ls b s) k \<noteq> None"
    by (simp only: domIff not_False_eq_True)
  show "k \<in> {''link'', ''charge'', ''center'', ''x'', ''y''}"
  proof (rule ccontr)
    assume "k \<notin> {''link'', ''charge'', ''center'', ''x'', ''y''}"
    then have k: "k \<noteq> ''link''" "k \<noteq> ''charge''" "k \<noteq> ''center''" "k \<noteq> ''x''" "k \<noteq> ''y''"
      by simp_all
    have "k \<notin> dom (forces s)"
      using assms \<open>k \<notin> {''link'', ''charge'', ''center'', ''x'', ''y''}\<close> by (rule contra_subsetD)
    then have "forces s k = None"
      by (simp only: domIff not_not)
    then have "forces (effect ls b s) k = None"
      using k by (simp add: forces_effect)
    with nz show False by contradiction
  qed
qed

lemma dom_forces_step:
  assumes "dom (forces (simulation a)) \<subseteq> {''link'', ''charge'', ''center'', ''x'', ''y''}"
  shows "dom (forces (simulation (step lib ls a act)))
           \<subseteq> {''link'', ''charge'', ''center'', ''x'', ''y''}"
proof (cases act)
  case Toggle
  then show ?thesis using dom_forces_effect [OF assms] by simp
next
  case (DragStart e)
  then show ?thesis using assms by (simp add: dragstarted_def sim_defs Let_def)
next
  case (Drag e)
  then show ?thesis using assms by (simp add: dragged_def sim_defs)
next
  case (DragEnd e)
  then show ?thesis using assms by (simp add: dragended_def sim_defs Let_def)
next
  case Tick
  then show ?thesis using assms by (simp add: tick_def Let_def)
qed

section \<open>The claims\<close>

subsection \<open>Datasets\<close>

text \<open>
  Claim C9. The filter under the comment ``Remove airports without flights'' keeps every
  row: its callback returns a function for every airport, and a function is truthy. The
  converted airports are therefore the rows of the file, one for one, and the list of states
  holds the state of every row of the file. The airports without flights are removed by
  the later filter on \<^verbatim>\<open>flights > 0\<close>: every airport that passes it has a flight.
\<close>

theorem airports_filter_keeps_every_row:
  "filter (\<lambda>a. truthy (airports_filter fs a)) raw = raw
   \<and> map iata (airports Number fs raw) = map iata raw
   \<and> set (states (airports Number fs raw)) = state ` set raw
   \<and> list_all (has_flight fs) (airportsWithTotal (airports Number fs raw) fs)"
proof -
  have keep: "filter (\<lambda>a. truthy (airports_filter fs a)) raw = raw"
    by (rule airports_filter_keeps)
  have ids: "map iata (airports Number fs raw) = map iata raw"
    by (simp add: airports_def keep comp_def)
  have sts: "set (states (airports Number fs raw)) = state ` set raw"
    by (simp add: states_def set_new_Set airports_def keep image_image)
  have "list_all (has_flight fs) (airportsWithTotal (airports Number fs raw) fs)"
    by (rule airportsWithTotal_has_flight)
  with keep ids sts show ?thesis by simp
qed




text \<open>
  Claim C3, at an input where the code breaks it. The one flight goes from the airport
  named \<^verbatim>\<open>constructor\<close> to LAX, both are in the dataset and the count is positive; the
  link's source is no simulated airport, and the construction of the simulation fails on
  it.
\<close>

theorem inherited_identifier_link_dangles:
  "origin inherited_flight \<in> iata ` set inherited_airports
   \<and> destination inherited_flight \<in> iata ` set inherited_airports
   \<and> 0 < Flight.count inherited_flight
   \<and> source (hd (links [inherited_flight]))
        \<notin> iata ` set (airportsWithTotal inherited_airports [inherited_flight])
   \<and> simulation_of scenario_d3 inherited_airports [inherited_flight]
        = Inl (MissingNodeError ''constructor'')"
proof -
  let ?ns = "nodes (forceSimulation scenario_d3
    (airportsWithTotal inherited_airports [inherited_flight]))"
  have ids: "iata ` set ?ns = {''LAX''}"
    by (simp add: nodes_forceSimulation inherited_nodes LAX_def [THEN arg_cong, of iata])
  have "find_node ?ns ''constructor'' = Inl (MissingNodeError ''constructor'')"
    using find_node_Inl(1) [of ?ns "''constructor''"] unfolding ids by simp
  then have "simulation_of scenario_d3 inherited_airports [inherited_flight]
      = Inl (MissingNodeError ''constructor'')"
    by (simp add: simulation_of_def Let_def links_def inherited_flight_def)
  moreover have "source (hd (links [inherited_flight]))
        \<notin> iata ` set (airportsWithTotal inherited_airports [inherited_flight])"
    by (simp add: links_def inherited_nodes inherited_flight_simps
        LAX_def [THEN arg_cong, of iata])
  ultimately show ?thesis
    by (simp add: inherited_ids inherited_flight_simps)
qed

text \<open>
  Claim C8. When a link names an identifier that no simulated node has, the construction of
  the simulation fails with \<open>MissingNodeError\<close> for an identifier that a link names and no
  node has: no simulation is built from the remaining links.
\<close>

theorem dangling_link_fails_construction:
  assumes "l \<in> set (links fs)"
    and "source l \<notin> iata ` set (airportsWithTotal as fs)
         \<or> target l \<notin> iata ` set (airportsWithTotal as fs)"
  shows "\<exists>k. simulation_of lib as fs = Inl (MissingNodeError k)
             \<and> k \<notin> iata ` set (airportsWithTotal as fs)
             \<and> k \<in> source ` set (links fs) \<union> target ` set (links fs)"
proof -
  let ?ns = "nodes (forceSimulation lib (airportsWithTotal as fs))"
  have ids: "iata ` set ?ns = iata ` set (airportsWithTotal as fs)"
    by (rule nodes_forceSimulation)
  have "\<exists>l \<in> set (links fs). source l \<notin> iata ` set ?ns \<or> target l \<notin> iata ` set ?ns"
    using assms unfolding ids by blast
  from resolve_links_Inl [OF this] obtain k where
    "resolve_links ?ns (links fs) = Inl (MissingNodeError k)" "k \<notin> iata ` set ?ns"
    "k \<in> source ` set (links fs) \<union> target ` set (links fs)" by blast
  then show ?thesis unfolding ids by (auto simp: simulation_of_def Let_def)
qed

theorem dangling_link_fails_construction_witness:
  "target (hd (links [dangling_flight])) \<notin> iata ` set (airportsWithTotal scenario_airports [dangling_flight])
   \<and> (\<exists>k. simulation_of scenario_d3 scenario_airports [dangling_flight] = Inl (MissingNodeError k))"
  using dangling_link_fails_construction [of "hd (links [dangling_flight])" "[dangling_flight]" scenario_airports scenario_d3]
  by (auto simp: links_def iata_airportsWithTotal scenario_defs)

subsection \<open>Dragging\<close>

text \<open>
  Claim C1, as the code has it. When no other gesture is in progress, \<^verbatim>\<open>dragstarted\<close> sets
  the alpha target to 0.3 and \<^verbatim>\<open>dragended\<close> sets it to 0.7: the target set at the end of
  a drag is strictly greater than the one set at its start, and below the 1 that the mode
  switch sets.
\<close>

theorem drag_end_alpha_target_above_drag_start:
  assumes "active e = 0" and "active e' = 0"
  shows "alphaTarget (dragstarted e s) = 3 / 10
         \<and> alphaTarget (dragended e' s') = 7 / 10
         \<and> alphaTarget (dragstarted e s) < alphaTarget (dragended e' s')
         \<and> alphaTarget (dragended e' s') < alphaTarget (effect ls b s'')"
  using assms by (simp add: alphaTarget_dragstarted alphaTarget_dragended alphaTarget_effect)

theorem drag_end_alpha_target_above_drag_start_witness:
  "active drag_event = 0
   \<and> alphaTarget (dragstarted drag_event scenario_simulation) = 3 / 10
   \<and> alphaTarget (dragended drag_event (dragstarted drag_event scenario_simulation)) = 7 / 10"
  using drag_end_alpha_target_above_drag_start [of drag_event drag_event scenario_simulation
      "dragstarted drag_event scenario_simulation" "links scenario_flights" True scenario_simulation]
  by (simp add: drag_event_def)

text \<open>
  The alpha target set at the end of the scenario's drag is not strictly less than the one
  set at its start.
\<close>

theorem drag_end_alpha_target_not_below_drag_start:
  "\<not> alphaTarget (dragended drag_event (dragstarted drag_event scenario_simulation))
       < alphaTarget (dragstarted drag_event scenario_simulation)"
  by (simp add: alphaTarget_dragstarted alphaTarget_dragended drag_event_def)

text \<open>
  Claim C4. After a drag event has pinned a node to the pointer, the node's position after
  any positive number of ticks is exactly the pointer's position, and after the start of a
  drag it is the position that the node had, whatever velocity changes the forces compute;
  another node, if it is not pinned, moves by its velocity in a tick.
\<close>

theorem pinned_position_after_ticks:
  assumes "subject e < length (nodes s)" and "0 < k"
  shows "node.x (nodes ((tick lib ^^ k) (dragged e s)) ! subject e) = event.x e
       \<and> node.y (nodes ((tick lib ^^ k) (dragged e s)) ! subject e) = event.y e
       \<and> node.x (nodes ((tick lib ^^ k) (dragstarted e s)) ! subject e) = node.x (nodes s ! subject e)
       \<and> node.y (nodes ((tick lib ^^ k) (dragstarted e s)) ! subject e) = node.y (nodes s ! subject e)
       \<and> (j < length (nodes s) \<and> j \<noteq> subject e \<and> fx (nodes s ! j) = None \<longrightarrow>
            node.x (nodes (tick lib (dragged e s)) ! j)
              = node.x (nodes s ! j) + vx (nodes (tick lib (dragged e s)) ! j))"
proof -
  let ?s = "dragged e s"
  have "subject e < length (nodes ?s)" "fx (nodes ?s ! subject e) = Some (event.x e)"
    "fy (nodes ?s ! subject e) = Some (event.y e)"
    using assms(1) by (simp_all add: nodes_dragged_nth)
  from ticks_pinned [where lib = lib and k = k, OF this] assms(2)
  have pinned: "node.x (nodes ((tick lib ^^ k) ?s) ! subject e) = event.x e
       \<and> node.y (nodes ((tick lib ^^ k) ?s) ! subject e) = event.y e"
    by simp
  have "node.x (nodes (tick lib ?s) ! j) = node.x (nodes s ! j) + vx (nodes (tick lib ?s) ! j)"
    if "j < length (nodes s)" "j \<noteq> subject e" "fx (nodes s ! j) = None"
  proof -
    have "j < length (nodes ?s)" "fx (nodes ?s ! j) = None" "nodes ?s ! j = nodes s ! j"
      using that by (simp_all add: nodes_dragged_nth)
    from tick_unpinned_x [OF this(1,2), of lib] this(3) show ?thesis by simp
  qed
  with pinned dragstarted_holds [where lib = lib and k = k, OF assms(1)] show ?thesis by blast
qed

theorem pinned_position_after_ticks_witness:
  "subject drag_event < length (nodes scenario_simulation)
   \<and> node.x (nodes ((tick scenario_d3 ^^ 50) (dragged drag_event scenario_simulation)) ! 0) = 100
   \<and> node.y (nodes ((tick scenario_d3 ^^ 50) (dragged drag_event scenario_simulation)) ! 0) = 100
   \<and> node.x (nodes (tick scenario_d3 (dragged drag_event scenario_simulation)) ! Suc 0)
       = node.x (nodes scenario_simulation ! Suc 0) + 147 / 125"
  using pinned_position_after_ticks [of drag_event scenario_simulation 50 scenario_d3 "Suc 0"]
  by (simp add: length_scenario drag_event_simps scenario_neighbour scenario_neighbour_moves)

subsection \<open>The layout mode\<close>

text \<open>
  Claim C2. On a simulation whose forces carry the five names that the module uses, the
  effect in map mode leaves exactly the forces \<open>x\<close> and \<open>y\<close> attached, in network mode
  exactly the forces \<open>link\<close>, \<open>charge\<close> and \<open>center\<close>; in either mode it sets the alpha
  target to 1 and restarts the simulation.
\<close>

theorem mode_switch_force_sets:
  assumes "dom (forces s) \<subseteq> {''link'', ''charge'', ''center'', ''x'', ''y''}"
  shows "forces (effect ls True s) = [''x'' \<mapsto> forceX, ''y'' \<mapsto> forceY]
         \<and> forces (effect ls False s)
             = [''link'' \<mapsto> forceLink ls, ''charge'' \<mapsto> forceNode, ''center'' \<mapsto> forceCenter]
         \<and> alphaTarget (effect ls b s) = 1
         \<and> running (effect ls b s)"
proof -
  have out: "forces s k = None"
    if "k \<noteq> ''link''" "k \<noteq> ''charge''" "k \<noteq> ''center''" "k \<noteq> ''x''" "k \<noteq> ''y''" for k
    using assms that by (auto simp: dom_def)
  have "forces (effect ls True s) k = [''x'' \<mapsto> forceX, ''y'' \<mapsto> forceY] k" for k
    using out [of k] by (simp add: forces_effect)
  moreover have "forces (effect ls False s) k
      = [''link'' \<mapsto> forceLink ls, ''charge'' \<mapsto> forceNode, ''center'' \<mapsto> forceCenter] k" for k
    using out [of k] by (simp add: forces_effect)
  ultimately show ?thesis
    by (simp add: alphaTarget_effect running_effect fun_eq_iff)
qed

theorem mode_switch_force_sets_witness:
  "dom (forces scenario_simulation) = {''link'', ''charge'', ''center''}
   \<and> forces (effect (links scenario_flights) True scenario_simulation)
        = [''x'' \<mapsto> forceX, ''y'' \<mapsto> forceY]
   \<and> alphaTarget (effect (links scenario_flights) True scenario_simulation) = 1"
  using mode_switch_force_sets [of scenario_simulation "links scenario_flights" True]
  by (simp add: scenario_state)

text \<open>
  Claim C6. Running the effect twice with the same mode leaves the same forces attached, and
  so the same active forces, as running it once.
\<close>

theorem mode_switch_idempotent:
  "forces (effect ls b (effect ls b s)) = forces (effect ls b s)
   \<and> active_forces (effect ls b (effect ls b s)) = active_forces (effect ls b s)"
  by (simp add: forces_effect active_forces_def)

text \<open>
  Claim C7. In map mode the force \<open>x\<close> has the anchor \<^verbatim>\<open>scaleLongitude(d.longitude)\<close> and
  the force \<open>y\<close> the anchor \<^verbatim>\<open>scaleLatitude(d.latitude)\<close>. The velocity change they give a
  node is the distance from the node to its anchor times the strength times alpha, and a
  tick in map mode moves a node that is not pinned by that change, after friction.
\<close>

theorem map_mode_anchor_targets:
  assumes "dom (forces s0) \<subseteq> {''link'', ''charge'', ''center'', ''x'', ''y''}"
    and "j < length (nodes s0)"
    and "fx (nodes s0 ! j) = None" and "fy (nodes s0 ! j) = None"
  shows "forces (effect ls True s0) ''x'' = Some (d3_forceX (\<lambda>d. scaleLongitude (longitude d)))
       \<and> forces (effect ls True s0) ''y'' = Some (d3_forceY (\<lambda>d. scaleLatitude (latitude d)))
       \<and> force_delta lib forceX a ns n
           = ((scaleLongitude (longitude n) - node.x n) * positional_strength lib * a, 0)
       \<and> force_delta lib forceY a ns n
           = (0, (scaleLatitude (latitude n) - node.y n) * positional_strength lib * a)
       \<and> vx (nodes (tick lib (effect ls True s0)) ! j) =
           (vx (nodes s0 ! j) + (scaleLongitude (longitude (nodes s0 ! j)) - node.x (nodes s0 ! j))
              * positional_strength lib * alpha (tick lib (effect ls True s0))) * velocityDecay s0
       \<and> vy (nodes (tick lib (effect ls True s0)) ! j) =
           (vy (nodes s0 ! j) + (scaleLatitude (latitude (nodes s0 ! j)) - node.y (nodes s0 ! j))
              * positional_strength lib * alpha (tick lib (effect ls True s0))) * velocityDecay s0"
proof -
  let ?s = "effect ls True s0"
  have out: "forces s0 k = None"
    if "k \<noteq> ''link''" "k \<noteq> ''charge''" "k \<noteq> ''center''" "k \<noteq> ''x''" "k \<noteq> ''y''" for k
    using assms(1) that by (auto simp: dom_def)
  have "forces ?s k = [''x'' \<mapsto> forceX, ''y'' \<mapsto> forceY] k" for k
    using out [of k] by (simp add: forces_effect)
  then have F: "forces ?s = [''x'' \<mapsto> forceX, ''y'' \<mapsto> forceY]"
    by (simp add: fun_eq_iff)
  have N: "nodes ?s = nodes s0" "velocityDecay ?s = velocityDecay s0"
    by (simp_all add: effect_def sim_defs)
  have "j < length (nodes ?s)" "fx (nodes ?s ! j) = None" "fy (nodes ?s ! j) = None"
    using assms(2-4) by (simp_all add: N)
  note T = tick_map_mode(1,2) [where lib = lib, OF F this]
  have A: "forces ?s ''x'' = Some (d3_forceX (\<lambda>d. scaleLongitude (longitude d)))"
    and B: "forces ?s ''y'' = Some (d3_forceY (\<lambda>d. scaleLatitude (latitude d)))"
    by (simp_all add: F forceX_def forceY_def)
  show ?thesis
    using A B T force_delta_forceX [of lib a ns n] force_delta_forceY [of lib a ns n]
    by (simp only: N simp_thms)
qed

theorem map_mode_anchor_targets_witness:
  "fx (nodes scenario_simulation ! 0) = None \<and> fy (nodes scenario_simulation ! 0) = None
   \<and> forces (effect (links scenario_flights) True scenario_simulation) ''x''
        = Some (d3_forceX (\<lambda>d. scaleLongitude (longitude d)))
   \<and> vx (nodes (tick scenario_d3 (effect (links scenario_flights) True scenario_simulation)) ! 0) =
        (vx (nodes scenario_simulation ! 0)
          + (scaleLongitude (longitude (nodes scenario_simulation ! 0))
               - node.x (nodes scenario_simulation ! 0))
            * positional_strength scenario_d3
            * alpha (tick scenario_d3 (effect (links scenario_flights) True scenario_simulation)))
        * velocityDecay scenario_simulation"
  using map_mode_anchor_targets [of scenario_simulation 0 "links scenario_flights" scenario_d3]
  by (simp add: scenario_state scenario_unpinned length_scenario)

text \<open>
  Claim C10. After the component is set up, whatever the user and the clock do, the alpha
  target is 1, 0.3 or 0.7, so at least 0.3 and never 0; and with a decay rate between 0 and
  1, alpha never falls below the smaller of its initial value and 0.3.
\<close>

theorem alpha_target_never_rests:
  "alphaTarget (simulation (run lib ls (App ls s0) acts)) \<in> {1, 3 / 10, 7 / 10}
   \<and> 3 / 10 \<le> alphaTarget (simulation (run lib ls (App ls s0) acts))
   \<and> (0 \<le> alphaDecay s0 \<and> alphaDecay s0 \<le> 1 \<longrightarrow>
        min (alpha s0) (3 / 10) \<le> alpha (simulation (run lib ls (App ls s0) acts)))"
proof -
  have T: "alphaTarget (simulation (run lib ls (App ls s0) acts)) \<in> {1, 3 / 10, 7 / 10}"
    by (rule alphaTarget_run_App)
  then have L: "3 / 10 \<le> alphaTarget (simulation (run lib ls (App ls s0) acts))"
    by auto
  have "min (alpha s0) (3 / 10) \<le> alpha (simulation (run lib ls (App ls s0) acts))"
    if d: "0 \<le> alphaDecay s0" "alphaDecay s0 \<le> 1"
  proof -
    have "hot (alphaDecay s0) (min (alpha s0) (3 / 10)) (App ls s0)"
      by (simp add: hot_def App_def alphaTarget_effect alpha_effect effect_def sim_defs)
    then have "hot (alphaDecay s0) (min (alpha s0) (3 / 10)) (run lib ls (App ls s0) acts)"
      using d by (rule hot_run) simp
    then show ?thesis by (simp add: hot_def)
  qed
  with T L show ?thesis by blast
qed

theorem alpha_target_never_rests_witness:
  "0 \<le> alphaDecay scenario_simulation \<and> alphaDecay scenario_simulation \<le> 1
   \<and> 3 / 10 \<le> alpha (simulation (run scenario_d3 (links scenario_flights)
        (App (links scenario_flights) scenario_simulation)
        [Tick, DragStart drag_event, Tick, Drag drag_event, Tick, DragEnd drag_event, Toggle, Tick]))"
  using alpha_target_never_rests [of scenario_d3 "links scenario_flights" scenario_simulation
      "[Tick, DragStart drag_event, Tick, Drag drag_event, Tick, DragEnd drag_event, Toggle, Tick]"]
  by (simp add: scenario_state)

end
